theory Spec2Isabelle
  imports Complex_Main
begin

section \<open>JavaScript values used by the report viewer\<close>

text \<open>
  The viewer is browser-side JavaScript. Strings are modelled as \<open>string\<close> (the only
  character the code looks for is the separator \<^verbatim>\<open>/\<close>); a metric value is a
  JavaScript number that none of the modelled functions inspects, so it is the type
  parameter \<open>'v\<close>. A run record has the shape
  \<^verbatim>\<open>{ info: { run_id, run_name }, data: { metrics: { key: number } } }\<close>.
  The object \<open>data.metrics\<close> is kept as the list of its own properties in the order in
  which \<^verbatim>\<open>Object.keys\<close> enumerates them.
\<close>

record run_info =
  run_id :: string
  run_name :: string

record 'v run_data =
  metrics :: "(string \<times> 'v) list"

record 'v run =
  info :: run_info
  data :: "'v run_data"

datatype error = TypeError | RangeError

text \<open>
  \<^verbatim>\<open>Object.keys(o)\<close> and the property read \<^verbatim>\<open>o[k]\<close> on a metrics object. A read of a
  missing property gives \<^verbatim>\<open>undefined\<close>, here \<open>None\<close>. The keys read from a metrics object
  in this program all contain \<^verbatim>\<open>/\<close>, so no property inherited from \<^verbatim>\<open>Object.prototype\<close>
  can answer such a read.
\<close>

definition object_keys :: "(string \<times> 'v) list \<Rightarrow> string list" where
  "object_keys obj = map fst obj"

definition get_property :: "(string \<times> 'v) list \<Rightarrow> string \<Rightarrow> 'v option" where
  "get_property obj k = map_of obj k"

text \<open>
  A \<^verbatim>\<open>Set\<close> iterates in insertion order, and \<^verbatim>\<open>add\<close> of a member leaves it where it is.
\<close>

definition set_add :: "'a list \<Rightarrow> 'a \<Rightarrow> 'a list" where
  "set_add s x = (if x \<in> set s then s else s @ [x])"

text \<open>
  \<^verbatim>\<open>key.split("/")\<close>: the segments between the separators; the empty string splits into
  one empty segment.
\<close>

fun split :: "char \<Rightarrow> string \<Rightarrow> string list" where
  "split sep [] = [[]]"
| "split sep (c # cs) =
     (if c = sep then [] # split sep cs
      else (case split sep cs of
              [] \<Rightarrow> [[c]]
            | s # ss \<Rightarrow> (c # s) # ss))"

text \<open>
  The objects \<open>byRunId\<close> and \<open>columns\<close> are created by the literal \<^verbatim>\<open>{}\<close>, so they inherit
  from \<^verbatim>\<open>Object.prototype\<close>. A plain object is modelled by the map of its own properties;
  the inherited property names are those of the ECMAScript standard (with its annex B).
\<close>

definition object_prototype_keys :: "string list" where
  "object_prototype_keys =
     [''constructor'', ''hasOwnProperty'', ''isPrototypeOf'', ''propertyIsEnumerable'',
      ''toLocaleString'', ''toString'', ''valueOf'', ''__proto__'',
      ''__defineGetter__'', ''__defineSetter__'', ''__lookupGetter__'', ''__lookupSetter__'']"

text \<open>
  \<^verbatim>\<open>k in obj\<close> looks through the prototype chain: it holds for an own property and for
  an inherited one.
\<close>

definition js_in :: "string \<Rightarrow> (string \<rightharpoonup> 'a) \<Rightarrow> bool" where
  "js_in k obj = (obj k \<noteq> None \<or> k \<in> set object_prototype_keys)"

text \<open>
  \<^verbatim>\<open>obj[k] = v\<close> on a plain object creates or overwrites the own property \<open>k\<close>, except for
  \<^verbatim>\<open>__proto__\<close>: that name is an inherited accessor, whose setter replaces the prototype
  of \<open>obj\<close> and creates no own property.
\<close>

definition js_assign :: "(string \<rightharpoonup> 'a) \<Rightarrow> string \<Rightarrow> 'a \<Rightarrow> (string \<rightharpoonup> 'a)" where
  "js_assign obj k v = (if k = ''__proto__'' then obj else obj(k \<mapsto> v))"

section \<open>reorganizeMetrics\<close>

record 'v reorganized =
  byRunId :: "string \<rightharpoonup> 'v run"
  columns :: "string \<rightharpoonup> string list"

text \<open>
  The first loop: every metric key of every run is added to the set \<open>allMetrics\<close>, and the
  run is stored in \<open>byRunId\<close> under its identifier.
\<close>

definition add_names :: "string list \<Rightarrow> string list \<Rightarrow> string list" where
  "add_names allMetrics names = fold (\<lambda>name s. set_add s name) names allMetrics"

fun collect :: "'v run list \<Rightarrow> (string \<rightharpoonup> 'v run) \<Rightarrow> string list
    \<Rightarrow> (string \<rightharpoonup> 'v run) \<times> string list" where
  "collect [] byId allMetrics = (byId, allMetrics)"
| "collect (r # runs) byId allMetrics =
     collect runs (js_assign byId (run_id (info r)) r)
       (add_names allMetrics (object_keys (metrics (data r))))"

text \<open>
  The second loop, over the keys of \<open>allMetrics\<close>. In the branch \<^verbatim>\<open>metric in columns\<close> the
  call \<^verbatim>\<open>columns[metric].push(chain)\<close> appends to the array when \<open>metric\<close> is an own
  property; when \<open>metric\<close> is only inherited, the value read has no \<^verbatim>\<open>push\<close> and the call
  throws a \<^verbatim>\<open>TypeError\<close>.
\<close>

fun build_columns :: "string list \<Rightarrow> string list \<Rightarrow> string list
    \<Rightarrow> (string \<rightharpoonup> string list) \<Rightarrow> error + (string \<rightharpoonup> string list)" where
  "build_columns hiddenMetrics hiddenChains [] cols = Inr cols"
| "build_columns hiddenMetrics hiddenChains (key # keys) cols =
     (let segments = split CHR ''/'' key in
      if length segments = 2 \<and> segments ! 0 \<noteq> ''system'' then
        (let chain = segments ! 0; metric = segments ! 1 in
         if metric \<in> set hiddenMetrics \<or> chain \<in> set hiddenChains then
           build_columns hiddenMetrics hiddenChains keys cols
         else if js_in metric cols then
           (case cols metric of
              Some cs \<Rightarrow>
                build_columns hiddenMetrics hiddenChains keys (cols(metric \<mapsto> cs @ [chain]))
            | None \<Rightarrow> Inl TypeError)
         else build_columns hiddenMetrics hiddenChains keys (cols(metric \<mapsto> [chain])))
      else build_columns hiddenMetrics hiddenChains keys cols)"

definition reorganizeMetrics :: "'v run list \<Rightarrow> string list \<Rightarrow> string list
    \<Rightarrow> error + 'v reorganized" where
  "reorganizeMetrics runs hiddenMetrics hiddenChains =
     (case collect runs Map.empty [] of
        (byId, allMetrics) \<Rightarrow>
          (case build_columns hiddenMetrics hiddenChains allMetrics Map.empty of
             Inl e \<Rightarrow> Inl e
           | Inr cols \<Rightarrow> Inr \<lparr>byRunId = byId, columns = cols\<rparr>))"

section \<open>Notions used to state what reorganizeMetrics computes\<close>

text \<open>
  The metric keys in the order in which the first loop meets them: the runs in list order,
  the keys of each run in enumeration order.
\<close>

definition encountered :: "'v run list \<Rightarrow> string list" where
  "encountered runs = concat (map (\<lambda>run. object_keys (metrics (data run))) runs)"

text \<open>The position of the first occurrence of an element (the length when there is none).\<close>

fun index_of :: "'a list \<Rightarrow> 'a \<Rightarrow> nat" where
  "index_of [] a = 0"
| "index_of (x # xs) a = (if x = a then 0 else Suc (index_of xs a))"

definition chain_of :: "string \<Rightarrow> string" where
  "chain_of key = split CHR ''/'' key ! 0"

definition metric_of :: "string \<Rightarrow> string" where
  "metric_of key = split CHR ''/'' key ! 1"

text \<open>The keys that pass both tests of the second loop.\<close>

definition shown :: "string list \<Rightarrow> string list \<Rightarrow> string \<Rightarrow> bool" where
  "shown hiddenMetrics hiddenChains key =
     (length (split CHR ''/'' key) = 2 \<and> chain_of key \<noteq> ''system'' \<and>
      metric_of key \<notin> set hiddenMetrics \<and> chain_of key \<notin> set hiddenChains)"

definition chains_for :: "string list \<Rightarrow> string list \<Rightarrow> string \<Rightarrow> string list \<Rightarrow> string list" where
  "chains_for hiddenMetrics hiddenChains m keys =
     map chain_of (filter (\<lambda>key. shown hiddenMetrics hiddenChains key \<and> metric_of key = m) keys)"

text \<open>No own property of \<open>columns\<close> carries a name that every object inherits.\<close>

definition own_ok :: "(string \<rightharpoonup> string list) \<Rightarrow> bool" where
  "own_ok cols = (\<forall>m. cols m \<noteq> None \<longrightarrow> m \<notin> set object_prototype_keys)"

text \<open>The last run of the list that carries an identifier.\<close>

definition last_run :: "'v run list \<Rightarrow> string \<Rightarrow> 'v run option" where
  "last_run runs i =
     (case filter (\<lambda>run. run_id (info run) = i) runs of
        [] \<Rightarrow> None
      | r # rs \<Rightarrow> Some (last (r # rs)))"

section \<open>The route table and the tab bar of SingleRun\<close>

datatype component =
  Overview | SingleRun | MultipleRuns | CompareMetrics | RunArtifacts | RunDetails
  | RunDiff | RunMetrics | RunParameters | RunPipeline

datatype route = Route
  (path: string)
  (name: "string option")
  (component: "component option")
  (redirect: "string option")
  (props: bool)
  (children: "route list")

definition routes :: "route list" where
  "routes =
     [Route ''/'' (Some ''index'') (Some Overview) None False [],
      Route ''/run/:id'' (Some ''single-run'') (Some SingleRun) (Some ''single-run-details'') True
        [Route '''' (Some ''single-run-details'') (Some RunDetails) None False [],
         Route ''metrics'' (Some ''single-run-metrics'') (Some RunMetrics) None False [],
         Route ''parameters'' (Some ''single-run-params'') (Some RunParameters) None False [],
         Route ''pipeline'' (Some ''single-run-pipeline'') (Some RunPipeline) None False [],
         Route ''artifacts'' (Some ''single-run-artifacts'') (Some RunArtifacts) None False []],
      Route ''/compare'' (Some ''compare-runs'') (Some MultipleRuns) None False
        [Route '''' None None (Some ''compare-runs-metrics'') False [],
         Route ''metrics'' (Some ''compare-runs-metrics'') (Some CompareMetrics) None False [],
         Route ''diff'' (Some ''compare-runs-diff'') (Some RunDiff) None False []]]"

text \<open>
  The router registers a nested record under the path of its parent: a child path that
  starts with \<^verbatim>\<open>/\<close> is absolute, an empty child path is the parent's path, and any other
  is appended to the parent's path with one connecting slash.
\<close>

definition full_path :: "string \<Rightarrow> string \<Rightarrow> string" where
  "full_path parent p =
     (if p \<noteq> [] \<and> hd p = CHR ''/'' then p
      else if p = [] then parent
      else if parent \<noteq> [] \<and> last parent = CHR ''/'' then parent @ p
      else parent @ ''/'' @ p)"

text \<open>The registered records, parents before their children, each with its full path.\<close>

fun registered :: "string \<Rightarrow> route \<Rightarrow> (string \<times> route) list" where
  "registered parent (Route p n c r pr chs) =
     (full_path parent p, Route p n c r pr chs)
       # concat (map (registered (full_path parent p)) chs)"

definition route_records :: "(string \<times> route) list" where
  "route_records = concat (map (registered '''') routes)"

definition named_paths :: "(string \<times> string) list" where
  "named_paths =
     concat (map (\<lambda>(p, r). case name r of None \<Rightarrow> [] | Some n \<Rightarrow> [(n, p)]) route_records)"

definition route_names :: "string list" where
  "route_names = map fst named_paths"

definition redirect_of :: "string \<Rightarrow> string option" where
  "redirect_of n =
     (case filter (\<lambda>(p, r). name r = Some n) route_records of
        [] \<Rightarrow> None
      | (p, r) # _ \<Rightarrow> redirect r)"

text \<open>The redirect declared by the child with path \<open>c\<close> of the top-level route with path \<open>p\<close>.\<close>

definition child_redirect :: "string \<Rightarrow> string \<Rightarrow> string option" where
  "child_redirect p c =
     (case filter (\<lambda>r. path r = p) routes of
        [] \<Rightarrow> None
      | r # _ \<Rightarrow>
          (case filter (\<lambda>ch. path ch = c) (children r) of
             [] \<Rightarrow> None
           | ch # _ \<Rightarrow> redirect ch))"

definition path_of :: "string \<Rightarrow> string option" where
  "path_of n = map_of named_paths n"

record tab =
  dest :: string
  label :: string

definition tabs :: "tab list" where
  "tabs =
     [\<lparr>dest = ''single-run-details'', label = ''Details''\<rparr>,
      \<lparr>dest = ''single-run-metrics'', label = ''Metrics''\<rparr>,
      \<lparr>dest = ''single-run-runtime'', label = ''Runtime''\<rparr>,
      \<lparr>dest = ''single-run-params'', label = ''Parameters''\<rparr>,
      \<lparr>dest = ''single-run-samples'', label = ''Samples''\<rparr>,
      \<lparr>dest = ''single-run-flowchart'', label = ''Flowchart''\<rparr>]"

section \<open>The SingleRun page shell\<close>

text \<open>
  The computed value \<open>run\<close> of the component:
  \<^verbatim>\<open>evaluationData.runs.filter((run) => run.info.run_id == props.id)[0]\<close>.
  Index 0 of an empty array is \<^verbatim>\<open>undefined\<close>, here \<open>None\<close>.
\<close>

definition resolve_run :: "'v run list \<Rightarrow> string \<Rightarrow> 'v run option" where
  "resolve_run runs id_prop =
     (case filter (\<lambda>run. run_id (info run) = id_prop) runs of
        [] \<Rightarrow> None
      | r # _ \<Rightarrow> Some r)"

datatype navigation = Push string

text \<open>The callback given to \<^verbatim>\<open>watch\<close>: \<^verbatim>\<open>if (!newRun) router.push({ name: 'index' })\<close>.\<close>

definition on_run_changed :: "'v run option \<Rightarrow> navigation list" where
  "on_run_changed newRun = (if newRun = None then [Push ''index''] else [])"

text \<open>
  \<^verbatim>\<open>watch(run, callback)\<close> is given no options, so it is lazy: the framework records the
  value of \<open>run\<close> at setup without calling the callback, and afterwards, each time the run
  collection or the \<open>id\<close> prop changes, it recomputes \<open>run\<close> and calls the callback only when
  the new value differs from the recorded one. The state of the component is the recorded
  value and the navigations pushed so far. (The framework compares two run objects by
  identity; the callback does nothing for a defined run, so the navigations do not depend
  on how two defined runs compare.)
\<close>

record 'v single_run =
  watched :: "'v run option"
  pushed :: "navigation list"

definition component_setup :: "'v run list \<Rightarrow> string \<Rightarrow> 'v single_run" where
  "component_setup runs id_prop = \<lparr>watched = resolve_run runs id_prop, pushed = []\<rparr>"

definition update :: "'v single_run \<Rightarrow> 'v run list \<Rightarrow> string \<Rightarrow> 'v single_run" where
  "update st runs id_prop =
     (let newRun = resolve_run runs id_prop in
      if newRun = watched st then st
      else \<lparr>watched = newRun, pushed = pushed st @ on_run_changed newRun\<rparr>)"

text \<open>
  The component over a sequence of changes. Each element of \<open>changes\<close> is the run collection
  and the prop as one run of the watcher finds them: the framework queues the watcher, so
  assignments made within one tick are seen as a single change. The navigation to \<open>index\<close>
  replaces the page; the component is unmounted and its watcher stopped, so no change is
  processed after a push.
\<close>

fun updates :: "'v single_run \<Rightarrow> ('v run list \<times> string) list \<Rightarrow> 'v single_run" where
  "updates st [] = st"
| "updates st ((runs, id_prop) # changes) =
     (if pushed st \<noteq> [] then st else updates (update st runs id_prop) changes)"

section \<open>The table cell of CompareMetrics\<close>

text \<open>
  The cell expression \<^verbatim>\<open>run.data.metrics[chain + "/" + metric].toFixed(precision)\<close>.
  The formatting method is a parameter of the cell; it may throw itself. A method call on
  \<^verbatim>\<open>undefined\<close> throws a \<^verbatim>\<open>TypeError\<close> before any method runs.
\<close>

definition render_cell :: "('v \<Rightarrow> 'p \<Rightarrow> error + string) \<Rightarrow> 'v run \<Rightarrow> string \<Rightarrow> string \<Rightarrow> 'p
    \<Rightarrow> error + string" where
  "render_cell toFixed run chain_name metric precision =
     (case get_property (metrics (data run)) (chain_name @ ''/'' @ metric) of
        None \<Rightarrow> Inl TypeError
      | Some v \<Rightarrow> toFixed v precision)"

text \<open>
  Modelled from the spec: the formatting routine \<^verbatim>\<open>Number.prototype.toFixed\<close> belongs to
  the language runtime and is not in the repository's sources. The specification calls its
  result fixed-point decimal notation with standard rounding; the definitions below follow
  the steps of the language standard (ECMA-262). A number is a binary floating point value:
  a finite one is kept as the rational number it denotes exactly, and the routine works
  on that exact value.
\<close>

datatype number = Finite rat | NaN | PosInfinity | NegInfinity

text \<open>
  \<^verbatim>\<open>ToIntegerOrInfinity\<close>: not-a-number gives 0, a finite number is truncated towards zero,
  and an infinity stays infinite, here \<open>None\<close>.
\<close>

definition ToIntegerOrInfinity :: "number \<Rightarrow> int option" where
  "ToIntegerOrInfinity v =
     (case v of
        NaN \<Rightarrow> Some 0
      | PosInfinity \<Rightarrow> None
      | NegInfinity \<Rightarrow> None
      | Finite q \<Rightarrow> Some (if q < 0 then - \<lfloor>- q\<rfloor> else \<lfloor>q\<rfloor>))"

text \<open>The decimal representation of a natural number, without leading zeros.\<close>

definition digit :: "nat \<Rightarrow> char" where
  "digit d = ''0123456789'' ! d"

function decimal :: "nat \<Rightarrow> string" where
  "decimal n = (if n < 10 then [digit n] else decimal (n div 10) @ [digit (n mod 10)])"
  by pat_completeness auto
termination
  by (relation "measure (\<lambda>n. n)") auto

text \<open>
  The branch of \<^verbatim>\<open>toFixed\<close> for \<open>0 \<le> x < 10^21\<close>: \<open>n\<close> is the integer for which
  \<open>n / 10^f - x\<close> is closest to zero, the larger one of two; its digits are padded with
  zeros to \<open>f + 1\<close> characters and the point is put before the last \<open>f\<close>.
\<close>

definition fixed_digits :: "rat \<Rightarrow> nat \<Rightarrow> string" where
  "fixed_digits x f =
     (let n = nat \<lfloor>x * 10 ^ f + 1 / 2\<rfloor>;
          m = decimal n
      in if f \<noteq> 0 then
           (let k = length m;
                m' = (if k \<le> f then replicate (f + 1 - k) CHR ''0'' @ m else m);
                k' = (if k \<le> f then f + 1 else k);
                a = take (k' - f) m';
                b = drop (k' - f) m'
            in a @ ''.'' @ b)
         else m)"

text \<open>
  \<^verbatim>\<open>x.toFixed(fractionDigits)\<close>. A number of fraction digits outside 0..100 throws a
  \<^verbatim>\<open>RangeError\<close>; a value that is not finite gives its name; from \<open>10^21\<close> on the result is
  the runtime's conversion of the number to a string, which is the parameter
  \<open>numberToString\<close>. The precision is a number here, which is what the number input
  stores for an entry it can parse.
\<close>

definition toFixed :: "(rat \<Rightarrow> string) \<Rightarrow> number \<Rightarrow> number \<Rightarrow> error + string" where
  "toFixed numberToString v fractionDigits =
     (case ToIntegerOrInfinity fractionDigits of
        None \<Rightarrow> Inl RangeError
      | Some f \<Rightarrow>
          if f < 0 \<or> 100 < f then Inl RangeError
          else
            (case v of
               NaN \<Rightarrow> Inr ''NaN''
             | PosInfinity \<Rightarrow> Inr ''Infinity''
             | NegInfinity \<Rightarrow> Inr ''-Infinity''
             | Finite q \<Rightarrow>
                 (let s = (if q < 0 then ''-'' else '''');
                      x = \<bar>q\<bar>;
                      m = (if 10 ^ 21 \<le> x then numberToString x else fixed_digits x (nat f))
                  in Inr (s @ m))))"




section \<open>Lists, sets and split\<close>

subsection \<open>First positions\<close>

lemma index_of_less_length: "index_of xs a < length xs \<longleftrightarrow> a \<in> set xs"
  by (induction xs) auto

lemma index_of_append:
  "index_of (xs @ ys) a = (if a \<in> set xs then index_of xs a else length xs + index_of ys a)"
  by (induction xs) auto

lemma index_of_filter:
  "a \<in> set xs \<Longrightarrow> b \<in> set xs \<Longrightarrow> P a \<Longrightarrow> P b \<Longrightarrow>
     index_of (filter P xs) a < index_of (filter P xs) b \<longleftrightarrow> index_of xs a < index_of xs b"
  by (induction xs) auto

lemma index_of_map:
  "inj_on f (set xs) \<Longrightarrow> a \<in> set xs \<Longrightarrow> index_of (map f xs) (f a) = index_of xs a"
  by (induction xs) (auto simp: inj_on_def)

subsection \<open>The set of all metric keys\<close>

lemma add_names_Nil: "add_names acc [] = acc"
  by (simp add: add_names_def)

lemma add_names_snoc: "add_names acc (ns @ [x]) = set_add (add_names acc ns) x"
  by (simp add: add_names_def)

lemma add_names_append: "add_names acc (xs @ ys) = add_names (add_names acc xs) ys"
  by (simp add: add_names_def)

lemma set_add_names: "set (add_names acc ns) = set acc \<union> set ns"
  by (induction ns rule: rev_induct) (auto simp: add_names_snoc set_add_def add_names_def)

lemma distinct_add_names: "distinct acc \<Longrightarrow> distinct (add_names acc ns)"
  by (induction ns rule: rev_induct) (auto simp: add_names_snoc set_add_def add_names_def)

lemma index_of_add_names:
  "a \<in> set ns \<Longrightarrow> b \<in> set ns \<Longrightarrow>
     index_of (add_names [] ns) a < index_of (add_names [] ns) b \<longleftrightarrow> index_of ns a < index_of ns b"
proof (induction ns rule: rev_induct)
  case Nil
  then show ?case by simp
next
  case (snoc x ns)
  let ?U = "add_names [] ns"
  have U: "set ?U = set ns"
    by (simp add: set_add_names)
  show ?case
  proof (cases "x \<in> set ns")
    case True
    with snoc.prems have "a \<in> set ns" "b \<in> set ns"
      by auto
    with snoc.IH True U show ?thesis
      by (simp add: add_names_snoc set_add_def index_of_append)
  next
    case False
    have lt: "\<And>c. c \<in> set ns \<Longrightarrow> index_of ?U c < length ?U \<and> index_of ns c < length ns"
      by (simp add: index_of_less_length U)
    from False snoc.prems snoc.IH U lt [of a] lt [of b] show ?thesis
      by (auto simp: add_names_snoc set_add_def index_of_append)
  qed
qed

lemma collect_allMetrics:
  "snd (collect runs byId acc) = add_names acc (encountered runs)"
  by (induction runs arbitrary: byId acc) (simp_all add: encountered_def add_names_append add_names_Nil)

subsection \<open>Splitting a key\<close>

lemma split_not_Nil: "split sep s \<noteq> []"
  by (induction s) (auto split: list.splits)

lemma length_split: "length (split sep s) = Suc (length (filter (\<lambda>c. c = sep) s))"
  by (induction s) (auto split: list.splits simp: split_not_Nil)

lemma split_no_sep: "sep \<notin> set s \<Longrightarrow> split sep s = [s]"
  by (induction s) auto

lemma split_first: "sep \<notin> set a \<Longrightarrow> split sep (a @ sep # b) = a # split sep b"
  by (induction a) auto

lemma split_two:
  "length (split sep (a @ sep # b)) = 2 \<Longrightarrow> split sep (a @ sep # b) = [a, b]"
proof -
  assume "length (split sep (a @ sep # b)) = 2"
  then have "filter (\<lambda>c. c = sep) a = []" "filter (\<lambda>c. c = sep) b = []"
    by (simp_all add: length_split)
  then have "sep \<notin> set a" "sep \<notin> set b"
    by (auto simp: filter_empty_conv)
  then show ?thesis
    by (simp add: split_first split_no_sep)
qed

lemma split_one: "split sep s = [b] \<Longrightarrow> s = b"
proof -
  assume one: "split sep s = [b]"
  then have "length (split sep s) = 1"
    by simp
  then have "filter (\<lambda>c. c = sep) s = []"
    by (simp add: length_split)
  then have "sep \<notin> set s"
    by (auto simp: filter_empty_conv)
  with one show ?thesis
    by (simp add: split_no_sep)
qed

lemma join_split_two:
  "split sep s = [a, b] \<Longrightarrow> s = a @ sep # b"
proof (induction s arbitrary: a)
  case Nil
  then show ?case by simp
next
  case (Cons c s)
  show ?case
  proof (cases "c = sep")
    case True
    with Cons.prems have "a = []" "split sep s = [b]"
      by simp_all
    moreover from \<open>split sep s = [b]\<close> have "s = b"
      by (rule split_one)
    ultimately show ?thesis using True by simp
  next
    case False
    with Cons.prems obtain a' where "split sep s = [a', b]" "a = c # a'"
      by (auto split: list.splits)
    with Cons.IH show ?thesis by simp
  qed
qed

section \<open>The loop that builds the columns\<close>

lemma chain_metric_join:
  "length (split CHR ''/'' key) = 2 \<Longrightarrow> key = chain_of key @ ''/'' @ metric_of key"
proof -
  assume "length (split CHR ''/'' key) = 2"
  then obtain a b where ab: "split CHR ''/'' key = [a, b]"
    by (auto simp: length_Suc_conv numeral_2_eq_2)
  then have "key = a @ CHR ''/'' # b"
    by (rule join_split_two)
  with ab show ?thesis
    by (simp add: chain_of_def metric_of_def)
qed

lemma build_columns_Cons:
  "build_columns hm hc (key # keys) cols =
     (if shown hm hc key then
        (if js_in (metric_of key) cols then
           (case cols (metric_of key) of
              Some cs \<Rightarrow> build_columns hm hc keys (cols(metric_of key \<mapsto> cs @ [chain_of key]))
            | None \<Rightarrow> Inl TypeError)
         else build_columns hm hc keys (cols(metric_of key \<mapsto> [chain_of key])))
      else build_columns hm hc keys cols)"
  by (auto simp: shown_def chain_of_def metric_of_def Let_def split: option.splits)

declare build_columns.simps(2) [simp del]

lemma build_columns_result:
  "build_columns hm hc keys cols = Inr cols' \<Longrightarrow>
     cols' m =
       (if chains_for hm hc m keys = [] then cols m
        else Some ((case cols m of None \<Rightarrow> [] | Some cs \<Rightarrow> cs) @ chains_for hm hc m keys))"
proof (induction keys arbitrary: cols)
  case Nil
  then show ?case by (simp add: chains_for_def)
next
  case (Cons key keys)
  show ?case
  proof (cases "shown hm hc key")
    case False
    with Cons show ?thesis
      by (simp add: build_columns_Cons chains_for_def)
  next
    case True
    show ?thesis
    proof (cases "cols (metric_of key)")
      case None
      with True Cons.prems have "build_columns hm hc keys (cols(metric_of key \<mapsto> [chain_of key])) = Inr cols'"
        by (auto simp: build_columns_Cons split: if_splits)
      from Cons.IH [OF this] True None show ?thesis
        by (auto simp: chains_for_def)
    next
      case (Some cs)
      with True Cons.prems have "build_columns hm hc keys (cols(metric_of key \<mapsto> cs @ [chain_of key])) = Inr cols'"
        by (auto simp: build_columns_Cons js_in_def split: if_splits)
      from Cons.IH [OF this] True Some show ?thesis
        by (auto simp: chains_for_def)
    qed
  qed
qed

lemma build_columns_returns:
  "own_ok cols \<Longrightarrow>
     (\<exists>cols'. build_columns hm hc keys cols = Inr cols') \<longleftrightarrow>
       (\<forall>key \<in> set keys. shown hm hc key \<longrightarrow> metric_of key \<notin> set object_prototype_keys)"
proof (induction keys arbitrary: cols)
  case Nil
  then show ?case by simp
next
  case (Cons key keys)
  show ?case
  proof (cases "shown hm hc key")
    case False
    with Cons show ?thesis
      by (simp add: build_columns_Cons)
  next
    case True
    show ?thesis
    proof (cases "metric_of key \<in> set object_prototype_keys")
      case proto: True
      with Cons.prems have "cols (metric_of key) = None"
        by (auto simp: own_ok_def)
      with proto True show ?thesis
        by (auto simp: build_columns_Cons js_in_def)
    next
      case proto: False
      obtain cols2 where
        step: "build_columns hm hc (key # keys) cols = build_columns hm hc keys cols2"
        and ok2: "own_ok cols2"
      proof (cases "cols (metric_of key)")
        case None
        with True proto have
          "build_columns hm hc (key # keys) cols =
             build_columns hm hc keys (cols(metric_of key \<mapsto> [chain_of key]))"
          by (simp add: build_columns_Cons js_in_def)
        moreover from proto Cons.prems have "own_ok (cols(metric_of key \<mapsto> [chain_of key]))"
          by (simp add: own_ok_def)
        ultimately show ?thesis
          by (rule that)
      next
        case (Some cs)
        with True have
          "build_columns hm hc (key # keys) cols =
             build_columns hm hc keys (cols(metric_of key \<mapsto> cs @ [chain_of key]))"
          by (simp add: build_columns_Cons js_in_def)
        moreover from proto Cons.prems
        have "own_ok (cols(metric_of key \<mapsto> cs @ [chain_of key]))"
          by (simp add: own_ok_def)
        ultimately show ?thesis
          by (rule that)
      qed
      have "(\<exists>cols'. build_columns hm hc (key # keys) cols = Inr cols') \<longleftrightarrow>
          (\<exists>cols'. build_columns hm hc keys cols2 = Inr cols')"
        by (simp only: step)
      also have "\<dots> \<longleftrightarrow>
          (\<forall>k \<in> set keys. shown hm hc k \<longrightarrow> metric_of k \<notin> set object_prototype_keys)"
        by (rule Cons.IH [OF ok2])
      also have "\<dots> \<longleftrightarrow>
          (\<forall>k \<in> set (key # keys). shown hm hc k \<longrightarrow> metric_of k \<notin> set object_prototype_keys)"
        using proto by simp
      finally show ?thesis .
    qed
  qed
qed

section \<open>What reorganizeMetrics returns\<close>

lemma own_ok_empty: "own_ok Map.empty"
  by (simp add: own_ok_def)

lemma reorganizeMetrics_Inr:
  "reorganizeMetrics runs hm hc = Inr r \<longleftrightarrow>
     (\<exists>cols. build_columns hm hc (add_names [] (encountered runs)) Map.empty = Inr cols \<and>
        r = \<lparr>byRunId = fst (collect runs Map.empty []), columns = cols\<rparr>)"
proof -
  obtain byId allMetrics where c: "collect runs Map.empty [] = (byId, allMetrics)"
    by (cases "collect runs Map.empty []")
  then have "allMetrics = add_names [] (encountered runs)"
    using collect_allMetrics [of runs Map.empty "[]"] by simp
  with c show ?thesis
    by (auto simp: reorganizeMetrics_def split: sum.splits)
qed

lemma reorganizeMetrics_columns:
  assumes "reorganizeMetrics runs hm hc = Inr r"
  shows "columns r m =
     (if chains_for hm hc m (add_names [] (encountered runs)) = [] then None
      else Some (chains_for hm hc m (add_names [] (encountered runs))))"
proof -
  from assms obtain cols where
    b: "build_columns hm hc (add_names [] (encountered runs)) Map.empty = Inr cols"
    and r: "r = \<lparr>byRunId = fst (collect runs Map.empty []), columns = cols\<rparr>"
    by (auto simp: reorganizeMetrics_Inr)
  from build_columns_result [OF b, of m] r show ?thesis
    by simp
qed

lemma reorganizeMetrics_returns:
  "(\<exists>r. reorganizeMetrics runs hm hc = Inr r) \<longleftrightarrow>
     (\<forall>key \<in> set (encountered runs).
        shown hm hc key \<longrightarrow> metric_of key \<notin> set object_prototype_keys)"
proof -
  have "(\<exists>r. reorganizeMetrics runs hm hc = Inr r) \<longleftrightarrow>
      (\<exists>cols. build_columns hm hc (add_names [] (encountered runs)) Map.empty = Inr cols)"
    by (auto simp: reorganizeMetrics_Inr)
  also have "\<dots> \<longleftrightarrow> (\<forall>key \<in> set (add_names [] (encountered runs)).
        shown hm hc key \<longrightarrow> metric_of key \<notin> set object_prototype_keys)"
    by (rule build_columns_returns [OF own_ok_empty])
  finally show ?thesis
    by (simp add: set_add_names)
qed

lemma shown_key:
  "shown hm hc (c @ CHR ''/'' # m) \<longleftrightarrow>
     length (split CHR ''/'' (c @ CHR ''/'' # m)) = 2 \<and> c \<noteq> ''system'' \<and>
     m \<notin> set hm \<and> c \<notin> set hc"
proof (cases "length (split CHR ''/'' (c @ CHR ''/'' # m)) = 2")
  case True
  then have "split CHR ''/'' (c @ CHR ''/'' # m) = [c, m]"
    by (rule split_two)
  then show ?thesis
    by (simp add: shown_def chain_of_def metric_of_def)
next
  case False
  then show ?thesis
    by (simp add: shown_def)
qed

lemma shown_chain_metric:
  "shown hm hc key \<Longrightarrow> key = chain_of key @ CHR ''/'' # metric_of key"
  using chain_metric_join [of key] by (simp add: shown_def)

lemma in_chains_for:
  "c \<in> set (chains_for hm hc m keys) \<longleftrightarrow>
     (c @ CHR ''/'' # m) \<in> set keys \<and> shown hm hc (c @ CHR ''/'' # m)"
proof
  assume "c \<in> set (chains_for hm hc m keys)"
  then obtain key where key: "key \<in> set keys" "shown hm hc key" "metric_of key = m"
      "chain_of key = c"
    by (auto simp: chains_for_def)
  from shown_chain_metric [OF key(2)] key(3,4) have "key = c @ CHR ''/'' # m"
    by simp
  with key show "(c @ CHR ''/'' # m) \<in> set keys \<and> shown hm hc (c @ CHR ''/'' # m)"
    by simp
next
  assume a: "(c @ CHR ''/'' # m) \<in> set keys \<and> shown hm hc (c @ CHR ''/'' # m)"
  then have "length (split CHR ''/'' (c @ CHR ''/'' # m)) = 2"
    by (simp add: shown_def)
  then have "split CHR ''/'' (c @ CHR ''/'' # m) = [c, m]"
    by (rule split_two)
  then have "chain_of (c @ CHR ''/'' # m) = c" "metric_of (c @ CHR ''/'' # m) = m"
    by (simp_all add: chain_of_def metric_of_def)
  with a show "c \<in> set (chains_for hm hc m keys)"
    by (force simp: chains_for_def)
qed

lemma collect_byRunId:
  "fst (collect runs byId acc) i =
     (if i = ''__proto__'' then byId i
      else (case last_run runs i of None \<Rightarrow> byId i | Some r \<Rightarrow> Some r))"
proof (induction runs arbitrary: byId acc)
  case Nil
  then show ?case by (simp add: last_run_def)
next
  case (Cons r runs)
  show ?case
    by (simp add: Cons.IH js_assign_def last_run_def split: list.splits)
qed

lemma reorganizeMetrics_byRunId:
  assumes "reorganizeMetrics runs hm hc = Inr r"
  shows "byRunId r i = (if i = ''__proto__'' then None else last_run runs i)"
proof -
  from assms have "byRunId r = fst (collect runs Map.empty [])"
    by (auto simp: reorganizeMetrics_Inr)
  then show ?thesis
    by (simp add: collect_byRunId split: option.splits)
qed


lemma columns_membership_when_returning:
  assumes "reorganizeMetrics runs hm hc = Inr r"
  shows "(\<exists>cs. columns r m = Some cs \<and> c \<in> set cs) \<longleftrightarrow>
     (\<exists>run \<in> set runs. (c @ ''/'' @ m) \<in> set (object_keys (metrics (data run)))) \<and>
     length (split CHR ''/'' (c @ ''/'' @ m)) = 2 \<and> c \<noteq> ''system'' \<and>
     m \<notin> set hm \<and> c \<notin> set hc"
proof -
  let ?U = "add_names [] (encountered runs)"
  have "(\<exists>cs. columns r m = Some cs \<and> c \<in> set cs) \<longleftrightarrow> c \<in> set (chains_for hm hc m ?U)"
    by (auto simp: reorganizeMetrics_columns [OF assms])
  also have "\<dots> \<longleftrightarrow> (c @ ''/'' @ m) \<in> set (encountered runs) \<and> shown hm hc (c @ ''/'' @ m)"
    by (simp add: in_chains_for set_add_names)
  also have "(c @ ''/'' @ m) \<in> set (encountered runs) \<longleftrightarrow>
      (\<exists>run \<in> set runs. (c @ ''/'' @ m) \<in> set (object_keys (metrics (data run))))"
    by (auto simp: encountered_def)
  finally show ?thesis
    by (simp add: shown_key)
qed

lemma chains_for_order:
  assumes c1: "c1 \<in> set (chains_for hm hc m (add_names [] ks))"
    and c2: "c2 \<in> set (chains_for hm hc m (add_names [] ks))"
  shows "index_of (chains_for hm hc m (add_names [] ks)) c1
           < index_of (chains_for hm hc m (add_names [] ks)) c2 \<longleftrightarrow>
         index_of ks (c1 @ CHR ''/'' # m) < index_of ks (c2 @ CHR ''/'' # m)"
proof -
  let ?U = "add_names [] ks"
  let ?P = "\<lambda>key. shown hm hc key \<and> metric_of key = m"
  let ?F = "filter ?P ?U"
  let ?k1 = "c1 @ CHR ''/'' # m" and ?k2 = "c2 @ CHR ''/'' # m"
  have key: "key = chain_of key @ CHR ''/'' # m" if "key \<in> set ?F" for key
    using that shown_chain_metric [of hm hc key] by auto
  have inj: "inj_on chain_of (set ?F)"
  proof (rule inj_onI)
    fix x y
    assume "x \<in> set ?F" "y \<in> set ?F" "chain_of x = chain_of y"
    then show "x = y"
      using key [of x] key [of y] by simp
  qed
  have mem: "c @ CHR ''/'' # m \<in> set ?F \<and> chain_of (c @ CHR ''/'' # m) = c"
    if "c \<in> set (chains_for hm hc m ?U)" for c
  proof -
    from that obtain k where k: "k \<in> set ?F" "chain_of k = c"
      by (auto simp: chains_for_def)
    with key [of k] have "k = c @ CHR ''/'' # m"
      by simp
    with k show ?thesis
      by simp
  qed
  from mem [OF c1] mem [OF c2] have
    k1: "?k1 \<in> set ?F" "chain_of ?k1 = c1" and k2: "?k2 \<in> set ?F" "chain_of ?k2 = c2"
    by simp_all
  have "index_of (map chain_of ?F) (chain_of ?k1) = index_of ?F ?k1"
    by (rule index_of_map [OF inj k1(1)])
  moreover have "index_of (map chain_of ?F) (chain_of ?k2) = index_of ?F ?k2"
    by (rule index_of_map [OF inj k2(1)])
  ultimately have "index_of (chains_for hm hc m ?U) c1 < index_of (chains_for hm hc m ?U) c2 \<longleftrightarrow>
      index_of ?F ?k1 < index_of ?F ?k2"
    using k1(2) k2(2) by (simp add: chains_for_def)
  also have "\<dots> \<longleftrightarrow> index_of ?U ?k1 < index_of ?U ?k2"
    using k1(1) k2(1) by (intro index_of_filter) simp_all
  also have "\<dots> \<longleftrightarrow> index_of ks ?k1 < index_of ks ?k2"
    using k1(1) k2(1) by (intro index_of_add_names) (simp_all add: set_add_names)
  finally show ?thesis .
qed

lemma distinct_chains_for: "distinct (chains_for hm hc m (add_names [] ks))"
proof -
  let ?F = "filter (\<lambda>key. shown hm hc key \<and> metric_of key = m) (add_names [] ks)"
  have key: "key = chain_of key @ CHR ''/'' # m" if "key \<in> set ?F" for key
    using that shown_chain_metric [of hm hc key] by auto
  have "inj_on chain_of (set ?F)"
  proof (rule inj_onI)
    fix x y
    assume "x \<in> set ?F" "y \<in> set ?F" "chain_of x = chain_of y"
    then show "x = y"
      using key [of x] key [of y] by simp
  qed
  moreover have "distinct ?F"
    by (simp add: distinct_add_names)
  ultimately show ?thesis
    by (simp add: chains_for_def distinct_map)
qed

lemma shown_mono:
  "set hm \<subseteq> set hm' \<Longrightarrow> set hc \<subseteq> set hc' \<Longrightarrow> shown hm' hc' key \<Longrightarrow> shown hm hc key"
  by (auto simp: shown_def)

lemma hiding_monotone_when_returning:
  assumes "reorganizeMetrics runs hm hc = Inr r"
    and "reorganizeMetrics runs hm' hc' = Inr r'"
    and "set hm \<subseteq> set hm'" and "set hc \<subseteq> set hc'"
    and "columns r' m = Some cs'" and "c \<in> set cs'"
  shows "(\<exists>cs. columns r m = Some cs \<and> c \<in> set cs) \<and> byRunId r' = byRunId r"
proof -
  from assms(5,6) have "c \<in> set (chains_for hm' hc' m (add_names [] (encountered runs)))"
    by (auto simp: reorganizeMetrics_columns [OF assms(2)] split: if_splits)
  then have "c \<in> set (chains_for hm hc m (add_names [] (encountered runs)))"
    using shown_mono [OF assms(3,4)] by (auto simp: in_chains_for)
  then have "\<exists>cs. columns r m = Some cs \<and> c \<in> set cs"
    by (auto simp: reorganizeMetrics_columns [OF assms(1)])
  moreover from assms(1,2) have "byRunId r' = byRunId r"
    by (auto simp: reorganizeMetrics_Inr)
  ultimately show ?thesis
    by simp
qed

lemmas eval_defs = reorganizeMetrics_def add_names_def set_add_def object_keys_def js_in_def
  js_assign_def object_prototype_keys_def build_columns.simps encountered_def get_property_def

section \<open>The claims about reorganizeMetrics\<close>

text \<open>
  C1. The specification states: for every list of runs and every pair of hidden lists,
  \<open>columns\<close> holds chain \<open>c\<close> under metric \<open>m\<close> exactly when some run has the key \<open>c/m\<close>, the key splits
  into two segments, \<open>c\<close> is not \<open>system\<close> and neither \<open>m\<close> nor \<open>c\<close> is hidden. At the run list
  with the single key \<open>a/toString\<close> and empty hidden lists the right-hand side holds for
  \<open>c = a\<close> and \<open>m = toString\<close>, but the function throws a \<^verbatim>\<open>TypeError\<close> and returns no columns:
  \<^verbatim>\<open>"toString" in columns\<close> holds for the empty object, so the loop calls \<^verbatim>\<open>push\<close> on the
  inherited function. Lemma \<open>columns_membership_when_returning\<close> is the claim for the calls
  that return, and lemma \<open>reorganizeMetrics_returns\<close> says which calls return.
\<close>

theorem reorganizeMetrics_inherited_name_throws:
  "reorganizeMetrics
     [\<lparr>info = \<lparr>run_id = ''r1'', run_name = ''one''\<rparr>,
        data = \<lparr>metrics = [(''a/toString'', 1 :: rat)]\<rparr>\<rparr>] [] [] = Inl TypeError \<and>
   ''a'' @ ''/'' @ ''toString'' \<in> set (object_keys (metrics (data
     \<lparr>info = \<lparr>run_id = ''r1'', run_name = ''one''\<rparr>,
        data = \<lparr>metrics = [(''a/toString'', 1 :: rat)]\<rparr>\<rparr>))) \<and>
   length (split CHR ''/'' (''a'' @ ''/'' @ ''toString'')) = 2 \<and>
   ''a'' \<noteq> ''system''"
  by (simp add: eval_defs)

text \<open>
  C3. Whenever reorganizeMetrics returns and \<open>columns\<close> has the list \<open>cs\<close> under metric \<open>m\<close>:
  the set of all metric keys was free of duplicates, no chain occurs twice in \<open>cs\<close>, and for
  two chains of \<open>cs\<close> the chain \<open>c1\<close> stands before \<open>c2\<close> exactly when the key \<open>c1/m\<close> is first
  met before the key \<open>c2/m\<close>, going through the runs in order and through each run's keys
  in enumeration order.
\<close>

theorem columns_first_seen_order:
  assumes "reorganizeMetrics runs hiddenMetrics hiddenChains = Inr r"
    and "columns r m = Some cs"
  shows "distinct (snd (collect runs Map.empty [])) \<and> distinct cs \<and>
     (\<forall>c1 \<in> set cs. \<forall>c2 \<in> set cs.
        index_of cs c1 < index_of cs c2 \<longleftrightarrow>
        index_of (encountered runs) (c1 @ ''/'' @ m)
          < index_of (encountered runs) (c2 @ ''/'' @ m))"
proof -
  from assms have cs: "cs = chains_for hiddenMetrics hiddenChains m (add_names [] (encountered runs))"
    by (auto simp: reorganizeMetrics_columns [OF assms(1)] split: if_splits)
  have "distinct (snd (collect runs Map.empty []))"
    by (simp add: collect_allMetrics distinct_add_names)
  moreover have "distinct cs"
    unfolding cs by (rule distinct_chains_for)
  moreover have "index_of cs c1 < index_of cs c2 \<longleftrightarrow>
        index_of (encountered runs) (c1 @ ''/'' @ m)
          < index_of (encountered runs) (c2 @ ''/'' @ m)"
    if "c1 \<in> set cs" "c2 \<in> set cs" for c1 c2
    using that chains_for_order [of c1 hiddenMetrics hiddenChains m "encountered runs" c2]
    unfolding cs by simp
  ultimately show ?thesis
    by blast
qed

theorem columns_first_seen_order_witness:
  "(\<exists>r. reorganizeMetrics
       [\<lparr>info = \<lparr>run_id = ''r1'', run_name = ''one''\<rparr>,
          data = \<lparr>metrics = [(''b/loss'', 1 :: rat), (''a/loss'', 2)]\<rparr>\<rparr>,
        \<lparr>info = \<lparr>run_id = ''r2'', run_name = ''two''\<rparr>,
          data = \<lparr>metrics = [(''a/loss'', 3), (''c/loss'', 4), (''b/loss'', 5)]\<rparr>\<rparr>] [] [] = Inr r \<and>
      columns r ''loss'' = Some [''b'', ''a'', ''c'']) \<and>
   distinct [''b'', ''a'', ''c''] \<and>
   (index_of [''b'', ''a'', ''c''] ''b'' < index_of [''b'', ''a'', ''c''] ''c'') =
   (index_of (encountered
       [\<lparr>info = \<lparr>run_id = ''r1'', run_name = ''one''\<rparr>,
          data = \<lparr>metrics = [(''b/loss'', 1 :: rat), (''a/loss'', 2)]\<rparr>\<rparr>,
        \<lparr>info = \<lparr>run_id = ''r2'', run_name = ''two''\<rparr>,
          data = \<lparr>metrics = [(''a/loss'', 3), (''c/loss'', 4), (''b/loss'', 5)]\<rparr>\<rparr>]) (''b'' @ ''/'' @ ''loss'')
     < index_of (encountered
       [\<lparr>info = \<lparr>run_id = ''r1'', run_name = ''one''\<rparr>,
          data = \<lparr>metrics = [(''b/loss'', 1 :: rat), (''a/loss'', 2)]\<rparr>\<rparr>,
        \<lparr>info = \<lparr>run_id = ''r2'', run_name = ''two''\<rparr>,
          data = \<lparr>metrics = [(''a/loss'', 3), (''c/loss'', 4), (''b/loss'', 5)]\<rparr>\<rparr>]) (''c'' @ ''/'' @ ''loss''))"
proof -
  let ?runs = "[\<lparr>info = \<lparr>run_id = ''r1'', run_name = ''one''\<rparr>,
          data = \<lparr>metrics = [(''b/loss'', 1 :: rat), (''a/loss'', 2)]\<rparr>\<rparr>,
        \<lparr>info = \<lparr>run_id = ''r2'', run_name = ''two''\<rparr>,
          data = \<lparr>metrics = [(''a/loss'', 3), (''c/loss'', 4), (''b/loss'', 5)]\<rparr>\<rparr>]"
  have ex: "\<exists>r. reorganizeMetrics ?runs [] [] = Inr r \<and> columns r ''loss'' = Some [''b'', ''a'', ''c'']"
    by (simp add: eval_defs)
  then obtain r where h1: "reorganizeMetrics ?runs [] [] = Inr r"
    and h2: "columns r ''loss'' = Some [''b'', ''a'', ''c'']"
    by blast
  from columns_first_seen_order [OF h1 h2] have
    "distinct [''b'', ''a'', ''c''] \<and>
     (index_of [''b'', ''a'', ''c''] ''b'' < index_of [''b'', ''a'', ''c''] ''c'') =
     (index_of (encountered ?runs) (''b'' @ ''/'' @ ''loss'')
       < index_of (encountered ?runs) (''c'' @ ''/'' @ ''loss''))"
    by simp
  with ex show ?thesis
    by blast
qed

text \<open>
  C4. The specification states: \<open>byRunId\<close> has exactly one entry for every identifier that
  occurs in the list. For a run whose identifier is \<^verbatim>\<open>__proto__\<close> the assignment
  \<^verbatim>\<open>byRunId[run.info.run_id] = run\<close> creates no entry, so the returned object has none for
  an identifier of the list. Lemma \<open>reorganizeMetrics_byRunId\<close> gives the entries of every
  call that returns: the last run of the list with the identifier, for any other
  identifier.
\<close>

theorem byRunId_drops_proto_identifier:
  "\<exists>r. reorganizeMetrics
       [\<lparr>info = \<lparr>run_id = ''__proto__'', run_name = ''one''\<rparr>,
          data = \<lparr>metrics = [(''a/acc'', 1 :: rat)]\<rparr>\<rparr>] [] [] = Inr r \<and>
     byRunId r ''__proto__'' = None \<and>
     columns r ''acc'' = Some [''a'']"
  by (simp add: eval_defs)

text \<open>
  C9. The specification states: when a hidden list grows, every column entry of the larger
  list is an entry of the smaller one, and \<open>byRunId\<close> does not change. For the keys \<open>a/acc\<close> and
  \<open>a/toString\<close> the call with no hidden metric throws a \<^verbatim>\<open>TypeError\<close>, while the call that
  hides \<open>toString\<close> returns the entry of chain \<open>a\<close> under \<open>acc\<close>. Lemma
  \<open>hiding_monotone_when_returning\<close> is the claim for two calls that both return.
\<close>

theorem hiding_turns_throw_into_columns:
  "reorganizeMetrics
     [\<lparr>info = \<lparr>run_id = ''r1'', run_name = ''one''\<rparr>,
        data = \<lparr>metrics = [(''a/acc'', 1 :: rat), (''a/toString'', 2)]\<rparr>\<rparr>] [] [] = Inl TypeError \<and>
   (\<exists>r. reorganizeMetrics
       [\<lparr>info = \<lparr>run_id = ''r1'', run_name = ''one''\<rparr>,
          data = \<lparr>metrics = [(''a/acc'', 1 :: rat), (''a/toString'', 2)]\<rparr>\<rparr>] [''toString''] [] = Inr r \<and>
      columns r ''acc'' = Some [''a''])"
  by (simp add: eval_defs)

text \<open>
  C10. Whenever reorganizeMetrics returns, every metric name that is a key of \<open>columns\<close>
  maps to a list with at least one chain.
\<close>

theorem columns_never_empty:
  assumes "reorganizeMetrics runs hiddenMetrics hiddenChains = Inr r"
    and "columns r m = Some cs"
  shows "cs \<noteq> []"
  using assms(2) by (auto simp: reorganizeMetrics_columns [OF assms(1)] split: if_splits)

theorem columns_never_empty_witness:
  "(\<exists>r. reorganizeMetrics
       [\<lparr>info = \<lparr>run_id = ''r1'', run_name = ''one''\<rparr>,
          data = \<lparr>metrics = [(''attackA/accuracy'', 1 / 2 :: rat), (''attackA/loss'', 1 / 5)]\<rparr>\<rparr>]
       [''accuracy''] [] = Inr r \<and>
      columns r ''loss'' = Some [''attackA'']) \<and>
   [''attackA''] \<noteq> []"
proof -
  let ?runs = "[\<lparr>info = \<lparr>run_id = ''r1'', run_name = ''one''\<rparr>,
          data = \<lparr>metrics = [(''attackA/accuracy'', 1 / 2 :: rat), (''attackA/loss'', 1 / 5)]\<rparr>\<rparr>]"
  have ex: "\<exists>r. reorganizeMetrics ?runs [''accuracy''] [] = Inr r \<and>
      columns r ''loss'' = Some [''attackA'']"
    by (simp add: eval_defs)
  then obtain r where h1: "reorganizeMetrics ?runs [''accuracy''] [] = Inr r"
    and h2: "columns r ''loss'' = Some [''attackA'']"
    by blast
  from columns_never_empty [OF h1 h2] ex show ?thesis
    by blast
qed

section \<open>The claim about the table cell\<close>

lemma render_cell_missing:
  "get_property (metrics (data run)) (c @ ''/'' @ m) = None \<Longrightarrow>
     render_cell format run c m p = Inl TypeError"
  by (simp add: render_cell_def)

text \<open>
  C2. There is a list of runs in which one run lacks a key \<open>c/m\<close> that another run reports,
  so that chain \<open>c\<close> is a column under metric \<open>m\<close> and the run has a row; the cell of that
  run in that column reads an absent entry, and the cell expression throws a
  \<^verbatim>\<open>TypeError\<close> whatever the formatting method and the precision are.
\<close>

theorem missing_metric_cell_faults:
  "\<exists>(runs :: rat run list) run c m r.
     reorganizeMetrics runs [] [] = Inr r \<and>
     run \<in> set runs \<and>
     byRunId r (run_id (info run)) = Some run \<and>
     (\<exists>cs. columns r m = Some cs \<and> c \<in> set cs) \<and>
     (\<exists>other \<in> set runs. get_property (metrics (data other)) (c @ ''/'' @ m) \<noteq> None) \<and>
     get_property (metrics (data run)) (c @ ''/'' @ m) = None \<and>
     (\<forall>(toFixed :: rat \<Rightarrow> nat \<Rightarrow> error + string) p. render_cell toFixed run c m p = Inl TypeError)"
  apply (rule exI [of _ "[\<lparr>info = \<lparr>run_id = ''r1'', run_name = ''one''\<rparr>,
       data = \<lparr>metrics = [(''a/acc'', 1 / 2)]\<rparr>\<rparr>, \<lparr>info = \<lparr>run_id = ''r2'', run_name = ''two''\<rparr>,
       data = \<lparr>metrics = []\<rparr>\<rparr>]"])
  apply (rule exI [of _ "\<lparr>info = \<lparr>run_id = ''r2'', run_name = ''two''\<rparr>,
       data = \<lparr>metrics = []\<rparr>\<rparr>"])
  apply (rule exI [of _ "''a''"])
  apply (rule exI [of _ "''acc''"])
  apply (simp add: eval_defs render_cell_def)
  apply (rule exI [of _ "1 / 2"])
  apply simp
  done

section \<open>The claim about the text of a cell\<close>

declare decimal.simps [simp del]













text \<open>
  The rounding is that of the exact binary value: the number written 1.005 is the binary
  value \<open>1131529406376837 / 2^50\<close>, which lies below 1.005, and is shown as 1.00.
\<close>

lemma toFixed_rounds_binary_value:
  "toFixed numberToString (Finite (1131529406376837 / 1125899906842624)) (Finite 2) = Inr ''1.00''"
proof -
  have "\<lfloor>1131529406376837 / 1125899906842624 * 10 ^ 2 + 1 / 2 :: rat\<rfloor> = 100"
    by (simp add: floor_eq_iff)
  then show ?thesis
    by (simp add: toFixed_def ToIntegerOrInfinity_def fixed_digits_def Let_def decimal.simps
        digit_def)
qed





section \<open>The claims about SingleRun\<close>

lemma resolve_run_None:
  "resolve_run runs i = None \<longleftrightarrow> (\<forall>r \<in> set runs. run_id (info r) \<noteq> i)"
proof (cases "filter (\<lambda>run. run_id (info run) = i) runs")
  case Nil
  then show ?thesis
    by (simp add: resolve_run_def filter_empty_conv)
next
  case (Cons r rest)
  then have "r \<in> set (filter (\<lambda>run. run_id (info run) = i) runs)"
    by simp
  then have "r \<in> set runs" "run_id (info r) = i"
    by simp_all
  with Cons show ?thesis
    by (auto simp: resolve_run_def)
qed

lemma resolve_run_Some:
  "resolve_run runs i = Some r \<longleftrightarrow>
     (\<exists>pre post. runs = pre @ r # post \<and> run_id (info r) = i \<and>
        (\<forall>q \<in> set pre. run_id (info q) \<noteq> i))"
proof -
  have "resolve_run runs i = Some r \<longleftrightarrow>
      (\<exists>rest. filter (\<lambda>run. run_id (info run) = i) runs = r # rest)"
    by (simp add: resolve_run_def split: list.splits)
  also have "\<dots> \<longleftrightarrow> (\<exists>pre post. runs = pre @ r # post \<and> run_id (info r) = i \<and>
        (\<forall>q \<in> set pre. run_id (info q) \<noteq> i))"
    unfolding filter_eq_Cons_iff by blast
  finally show ?thesis .
qed

lemma update_pushed:
  "pushed (update st runs i) =
     (if watched st \<noteq> None \<and> resolve_run runs i = None
      then pushed st @ [Push ''index''] else pushed st)"
  by (auto simp: update_def on_run_changed_def Let_def)

lemma updates_never_resolved:
  "watched st = None \<Longrightarrow> list_all (\<lambda>(runs, i). resolve_run runs i = None) changes \<Longrightarrow>
     updates st changes = st"
  by (induction changes arbitrary: st) (auto simp: update_def Let_def)

text \<open>After the first navigation the component handles no further change.\<close>

lemma updates_after_push:
  "pushed (updates (component_setup [\<lparr>info = \<lparr>run_id = ''r1'', run_name = ''one''\<rparr>,
       data = \<lparr>metrics = [(''a/acc'', 1 :: rat)]\<rparr>\<rparr>] ''r1'')
     [([], ''r1''),
      ([\<lparr>info = \<lparr>run_id = ''r1'', run_name = ''one''\<rparr>, data = \<lparr>metrics = [(''a/acc'', 1)]\<rparr>\<rparr>], ''r1''),
      ([], ''r1'')]) = [Push ''index'']"
  by (simp add: resolve_run_def update_def component_setup_def on_run_changed_def)

text \<open>
  C5. The specification states: the run is the first run of the collection with the
  identifier of the prop (lemmas \<open>resolve_run_Some\<close> and \<open>resolve_run_None\<close>), and whenever there is no
  such run the component navigates to \<open>index\<close>. With the prop \<open>does-not-exist\<close>, an empty
  collection at setup and a collection loaded afterwards that has no such run, the value
  of \<open>run\<close> is \<^verbatim>\<open>undefined\<close> before and after, the watcher sees no change and nothing is
  pushed. Lemma \<open>update_pushed\<close> says when the component navigates: exactly when a
  resolved run becomes unresolved.
\<close>

theorem single_run_no_redirect:
  "resolve_run [\<lparr>info = \<lparr>run_id = ''r1'', run_name = ''one''\<rparr>,
       data = \<lparr>metrics = [(''a/acc'', 1 / 2 :: rat)]\<rparr>\<rparr>] ''does-not-exist'' = None \<and>
   pushed (updates (component_setup [] ''does-not-exist'')
     [([\<lparr>info = \<lparr>run_id = ''r1'', run_name = ''one''\<rparr>,
         data = \<lparr>metrics = [(''a/acc'', 1 / 2 :: rat)]\<rparr>\<rparr>], ''does-not-exist'')]) = []"
  by (simp add: resolve_run_def update_def component_setup_def)

section \<open>Facts about the route table\<close>

lemma route_records_eval:
  "map (\<lambda>(p, r). (p, name r, redirect r)) route_records =
     [(''/'', Some ''index'', None),
      (''/run/:id'', Some ''single-run'', Some ''single-run-details''),
      (''/run/:id'', Some ''single-run-details'', None),
      (''/run/:id/metrics'', Some ''single-run-metrics'', None),
      (''/run/:id/parameters'', Some ''single-run-params'', None),
      (''/run/:id/pipeline'', Some ''single-run-pipeline'', None),
      (''/run/:id/artifacts'', Some ''single-run-artifacts'', None),
      (''/compare'', Some ''compare-runs'', None),
      (''/compare'', None, Some ''compare-runs-metrics''),
      (''/compare/metrics'', Some ''compare-runs-metrics'', None),
      (''/compare/diff'', Some ''compare-runs-diff'', None)]"
  by (simp add: route_records_def routes_def full_path_def)

lemma named_paths_eval:
  "named_paths =
     [(''index'', ''/''),
      (''single-run'', ''/run/:id''),
      (''single-run-details'', ''/run/:id''),
      (''single-run-metrics'', ''/run/:id/metrics''),
      (''single-run-params'', ''/run/:id/parameters''),
      (''single-run-pipeline'', ''/run/:id/pipeline''),
      (''single-run-artifacts'', ''/run/:id/artifacts''),
      (''compare-runs'', ''/compare''),
      (''compare-runs-metrics'', ''/compare/metrics''),
      (''compare-runs-diff'', ''/compare/diff'')]"
  by (simp add: named_paths_def route_records_def routes_def full_path_def)

lemma route_names_eval:
  "route_names =
     [''index'', ''single-run'', ''single-run-details'', ''single-run-metrics'',
      ''single-run-params'', ''single-run-pipeline'', ''single-run-artifacts'',
      ''compare-runs'', ''compare-runs-metrics'', ''compare-runs-diff'']"
  by (simp add: route_names_def named_paths_eval)

text \<open>
  C6, as the specification states it: every route name resolves to a path of its own. The
  names \<open>single-run\<close> and \<open>single-run-details\<close> resolve to the same path, since the child is
  registered with the empty path under its parent.
\<close>

theorem route_paths_collide:
  "path_of ''single-run'' = Some ''/run/:id'' \<and>
   path_of ''single-run-details'' = Some ''/run/:id'' \<and>
   \<not> distinct (map snd named_paths)"
  by (simp add: path_of_def named_paths_eval)

text \<open>
  C6, amended. The ten route names occur exactly once each, in the order given; each
  resolves to the path listed; the paths are pairwise distinct once \<open>single-run-details\<close>,
  which shares \<open>/run/:id\<close> with its parent \<open>single-run\<close>, is set aside; the route
  \<open>single-run\<close> redirects to \<open>single-run-details\<close>; and the child with the empty path of
  the route \<open>/compare\<close> redirects to \<open>compare-runs-metrics\<close>.
\<close>

theorem route_table_names_paths_redirects:
  "route_names =
     [''index'', ''single-run'', ''single-run-details'', ''single-run-metrics'',
      ''single-run-params'', ''single-run-pipeline'', ''single-run-artifacts'',
      ''compare-runs'', ''compare-runs-metrics'', ''compare-runs-diff''] \<and>
   distinct route_names \<and>
   map path_of route_names =
     [Some ''/'', Some ''/run/:id'', Some ''/run/:id'', Some ''/run/:id/metrics'',
      Some ''/run/:id/parameters'', Some ''/run/:id/pipeline'', Some ''/run/:id/artifacts'',
      Some ''/compare'', Some ''/compare/metrics'', Some ''/compare/diff''] \<and>
   distinct (map snd (filter (\<lambda>(n, p). n \<noteq> ''single-run-details'') named_paths)) \<and>
   redirect_of ''single-run'' = Some ''single-run-details'' \<and>
   child_redirect ''/compare'' '''' = Some ''compare-runs-metrics''"
  apply (intro conjI)
       apply (simp add: route_names_eval)
      apply (simp add: route_names_eval)
     apply (simp add: route_names_eval path_of_def named_paths_eval)
    apply (simp add: named_paths_eval)
   apply (simp add: redirect_of_def route_records_def routes_def full_path_def)
  apply (simp add: child_redirect_def routes_def)
  done

text \<open>
  C7. The tab bar of SingleRun declares exactly six tabs, whose destinations are, in order,
  single-run-details, single-run-metrics, single-run-runtime, single-run-params,
  single-run-samples and single-run-flowchart. The destinations single-run-runtime,
  single-run-samples and single-run-flowchart are names of no registered route, and the
  registered routes single-run-pipeline and single-run-artifacts are the destination of
  no tab.
\<close>

theorem tabs_route_mismatch:
  "length tabs = 6 \<and>
   map dest tabs =
     [''single-run-details'', ''single-run-metrics'', ''single-run-runtime'',
      ''single-run-params'', ''single-run-samples'', ''single-run-flowchart''] \<and>
   ''single-run-runtime'' \<notin> set route_names \<and>
   ''single-run-samples'' \<notin> set route_names \<and>
   ''single-run-flowchart'' \<notin> set route_names \<and>
   ''single-run-pipeline'' \<in> set route_names \<and>
   ''single-run-artifacts'' \<in> set route_names \<and>
   ''single-run-pipeline'' \<notin> set (map dest tabs) \<and>
   ''single-run-artifacts'' \<notin> set (map dest tabs)"
  by (simp add: tabs_def route_names_eval)

end
